theory Spec2Isabelle
  imports Complex_Main "HOL-Library.Monad_Syntax"
begin

section \<open>Dataset adapters of TempoTokens/utils/dataset.py\<close>

text \<open>
  The module holds the dataset variants of a video/audio training pipeline. This theory
  embeds the parts that compute something of their own: caption resolution
  (\<^verbatim>\<open>get_text_prompt\<close>), the frame window selectors (\<^verbatim>\<open>get_video_frames\<close>,
  \<^verbatim>\<open>VideoFolderDataset.get_frame_batch\<close>), the audio window of \<^verbatim>\<open>process_video\<close>,
  the manifest loader of \<^verbatim>\<open>VideoJsonDataset\<close>, the chunking of
  \<^verbatim>\<open>SingleVideoDataset\<close> and the retry loop of \<^verbatim>\<open>VideoFolderDataset.__getitem__\<close>.
  Decoding, resizing and tokenising are done by libraries and are not modelled: a video
  reader is its frame count and its average frame rate, a waveform is its list of samples,
  a tensor is known by its shape.

  Python integers are \<open>int\<close>. Python floats are modelled by exact rationals: the
  quotients the module takes (\<^verbatim>\<open>native_fps / self.fps\<close>, \<^verbatim>\<open>sample_rate * idxs[0] / 30\<close>,
  \<^verbatim>\<open>len(idxs) / 24\<close>) are read as exact quotients, and rounding errors of binary floating
  point are outside the model.
\<close>

subsection \<open>Python primitives\<close>

datatype py_error =
  IndexError | ValueError | TypeError | ZeroDivisionError | KeyError | OSError | AssertionError

text \<open>\<^verbatim>\<open>range(a, b, s)\<close>: counting up for a positive step, down for a negative one;
  a zero step raises \<^verbatim>\<open>ValueError\<close>.\<close>

function range_up :: "int \<Rightarrow> int \<Rightarrow> int \<Rightarrow> int list" where
  "range_up a b s = (if 0 < s \<and> a < b then a # range_up (a + s) b s else [])"
  by pat_completeness auto
termination
  by (relation "measure (\<lambda>(a, b, s). nat (b - a))") auto

function range_down :: "int \<Rightarrow> int \<Rightarrow> int \<Rightarrow> int list" where
  "range_down a b s = (if s < 0 \<and> b < a then a # range_down (a + s) b s else [])"
  by pat_completeness auto
termination
  by (relation "measure (\<lambda>(a, b, s). nat (a - b))") auto

declare range_up.simps [simp del] range_down.simps [simp del]

definition py_range :: "int \<Rightarrow> int \<Rightarrow> int \<Rightarrow> py_error + int list" where
  "py_range a b s =
     (if s = 0 then Inl ValueError
      else if 0 < s then Inr (range_up a b s)
      else Inr (range_down a b s))"

text \<open>\<^verbatim>\<open>xs[a:b]\<close>: a negative bound counts from the end, and both bounds are clipped
  to the list.\<close>

definition py_slice :: "'a list \<Rightarrow> int \<Rightarrow> int \<Rightarrow> 'a list" where
  "py_slice xs a b =
     (let n = int (length xs);
          lo = (if a < 0 then max 0 (a + n) else min a n);
          hi = (if b < 0 then max 0 (b + n) else min b n)
      in take (nat (hi - lo)) (drop (nat lo) xs))"

text \<open>\<^verbatim>\<open>xs[i]\<close> and \<^verbatim>\<open>del xs[i]\<close> raise \<^verbatim>\<open>IndexError\<close> out of range.\<close>

definition py_index :: "'a list \<Rightarrow> int \<Rightarrow> py_error + 'a" where
  "py_index xs i =
     (if 0 \<le> i \<and> i < int (length xs) then Inr (xs ! nat i)
      else if i < 0 \<and> - int (length xs) \<le> i then Inr (xs ! nat (int (length xs) + i))
      else Inl IndexError)"

definition list_del :: "'a list \<Rightarrow> nat \<Rightarrow> py_error + 'a list" where
  "list_del xs i = (if i < length xs then Inr (take i xs @ drop (Suc i) xs) else Inl IndexError)"

text \<open>\<^verbatim>\<open>int(x)\<close> truncates towards zero; \<^verbatim>\<open>round(x)\<close> rounds to the nearest integer
  and a tie to the even one.\<close>

definition py_int :: "rat \<Rightarrow> int" where
  "py_int x = (if 0 \<le> x then \<lfloor>x\<rfloor> else \<lceil>x\<rceil>)"

definition py_round :: "rat \<Rightarrow> int" where
  "py_round x =
     (let f = \<lfloor>x\<rfloor>; d = x - of_int f
      in if d < 1 / 2 then f
         else if 1 / 2 < d then f + 1
         else if even f then f else f + 1)"

text \<open>Randomness is an argument: \<open>r\<close> is the raw draw. \<^verbatim>\<open>random.randint(a, b)\<close> raises
  \<^verbatim>\<open>ValueError\<close> on an empty interval, \<^verbatim>\<open>random.choice\<close> raises \<^verbatim>\<open>IndexError\<close> on an
  empty list.\<close>

definition randint :: "int \<Rightarrow> int \<Rightarrow> nat \<Rightarrow> py_error + int" where
  "randint a b r = (if b < a then Inl ValueError else Inr (a + int r mod (b - a + 1)))"

definition random_choice :: "'a list \<Rightarrow> nat \<Rightarrow> py_error + 'a" where
  "random_choice xs r = (if xs = [] then Inl IndexError else Inr (xs ! (r mod length xs)))"

subsection \<open>Strings and files\<close>

definition ends_with :: "string \<Rightarrow> string \<Rightarrow> bool" where
  "ends_with s e = (length e \<le> length s \<and> drop (length s - length e) s = e)"

text \<open>\<^verbatim>\<open>s.replace(old, new)\<close> replaces every occurrence of \<open>old\<close>, scanning from the left.\<close>

function replace_from :: "string \<Rightarrow> string \<Rightarrow> string \<Rightarrow> string" where
  "replace_from s old new =
     (if old = [] \<or> s = [] then s
      else if take (length old) s = old then new @ replace_from (drop (length old) s) old new
      else hd s # replace_from (tl s) old new)"
  by pat_completeness auto
termination
  by (relation "measure (\<lambda>(s, old, new). length s)") (auto simp: neq_Nil_conv)

declare replace_from.simps [simp del]

definition str_replace :: "string \<Rightarrow> string \<Rightarrow> string \<Rightarrow> string" where
  "str_replace s old new =
     (if old = [] then new @ concat (map (\<lambda>c. c # new) s) else replace_from s old new)"

text \<open>\<^verbatim>\<open>s.endswith(x)\<close> takes a string or a tuple of strings; a list raises
  \<^verbatim>\<open>TypeError\<close>. The default of \<^verbatim>\<open>ext_types\<close> is the list \<^verbatim>\<open>['.mp4']\<close>, the image
  dataset passes a tuple, so the model keeps the two apart.\<close>

datatype 'a py_seq = PyTuple "'a list" | PyList "'a list"

fun seq_items :: "'a py_seq \<Rightarrow> 'a list" where
  "seq_items (PyTuple xs) = xs"
| "seq_items (PyList xs) = xs"

fun str_endswith :: "string \<Rightarrow> string py_seq \<Rightarrow> py_error + bool" where
  "str_endswith s (PyTuple es) = Inr (list_ex (ends_with s) es)"
| "str_endswith s (PyList es) = Inl TypeError"

text \<open>A file system maps a path to a text file or to a node that cannot be read as text
  (no permission, a directory, bytes that do not decode), with the error reading it
  raises.\<close>

datatype file_node = FileText string | FileUnreadable py_error

type_synonym file_system = "string \<Rightarrow> file_node option"

definition path_exists :: "file_system \<Rightarrow> string \<Rightarrow> bool" where
  "path_exists fs p = (p \<noteq> [] \<and> fs p \<noteq> None)"

definition read_text_file :: "file_system \<Rightarrow> string \<Rightarrow> py_error + string" where
  "read_text_file fs p =
     (case fs p of
        None \<Rightarrow> Inl OSError
      | Some (FileUnreadable e) \<Rightarrow> Inl e
      | Some (FileText s) \<Rightarrow> Inr s)"

definition read_caption_file :: "file_system \<Rightarrow> string \<Rightarrow> py_error + string" where
  "read_caption_file fs caption_file = read_text_file fs caption_file"

subsection \<open>get_text_prompt (lines 42-70)\<close>

text \<open>The loop over \<^verbatim>\<open>ext_types\<close> (lines 54-59): \<^verbatim>\<open>continue\<close> when the candidate still
  ends with a media extension, \<^verbatim>\<open>break\<close> at the first candidate that exists. The result
  is \<^verbatim>\<open>caption_file\<close>, the empty string when no candidate exists.\<close>

fun find_caption_file ::
  "file_system \<Rightarrow> string \<Rightarrow> string py_seq \<Rightarrow> string list \<Rightarrow> py_error + string" where
  "find_caption_file fs file_path ext_types [] = Inr []"
| "find_caption_file fs file_path ext_types (ext # exts) =
     (let maybe_file = str_replace file_path ext ''.txt''
      in case str_endswith maybe_file ext_types of
           Inl e \<Rightarrow> Inl e
         | Inr skip \<Rightarrow>
             if skip then find_caption_file fs file_path ext_types exts
             else if path_exists fs maybe_file then Inr maybe_file
             else find_caption_file fs file_path ext_types exts)"

text \<open>The body of the \<^verbatim>\<open>try\<close> (lines 50-67).\<close>

definition get_text_prompt_try ::
  "file_system \<Rightarrow> string \<Rightarrow> string \<Rightarrow> string \<Rightarrow> string py_seq \<Rightarrow> bool \<Rightarrow> py_error + string" where
  "get_text_prompt_try fs text_prompt fallback_prompt file_path ext_types use_caption =
     (if use_caption then
        if 1 < length text_prompt then Inr text_prompt
        else
          case find_caption_file fs file_path ext_types (seq_items ext_types) of
            Inl e \<Rightarrow> Inl e
          | Inr caption_file \<Rightarrow>
              if path_exists fs caption_file then read_caption_file fs caption_file
              else Inr fallback_prompt
      else Inr text_prompt)"

definition fallback_warning :: "string \<Rightarrow> string" where
  "fallback_warning file_path =
     ''Couldn'' @ [CHR 0x27] @ ''t read prompt caption for '' @ file_path @ ''. Using fallback.''"

text \<open>The function with its bare \<^verbatim>\<open>except\<close> (lines 68-70): the prompt and the lines
  printed.\<close>

definition get_text_prompt ::
  "file_system \<Rightarrow> string \<Rightarrow> string \<Rightarrow> string \<Rightarrow> string py_seq \<Rightarrow> bool \<Rightarrow> string \<times> string list" where
  "get_text_prompt fs text_prompt fallback_prompt file_path ext_types use_caption =
     (case get_text_prompt_try fs text_prompt fallback_prompt file_path ext_types use_caption of
        Inr caption \<Rightarrow> (caption, [])
      | Inl e \<Rightarrow> (fallback_prompt, [fallback_warning file_path]))"

text \<open>\<^verbatim>\<open>ImageDataset.img_types\<close> (line 413), the tuple the image dataset passes.\<close>

definition img_types :: "string py_seq" where
  "img_types = PyTuple [''.png'', ''.jpg'', ''.jpeg'', ''.bmp'']"

subsection \<open>get_video_frames (lines 73-80)\<close>

text \<open>\<^verbatim>\<open>sorted((0, start_idx, max_range))[1]\<close> is the median of the three; the reader
  enters by its length.\<close>

definition get_video_frames :: "nat \<Rightarrow> int \<Rightarrow> int \<Rightarrow> int \<Rightarrow> py_error + int list" where
  "get_video_frames len_vr start_idx sample_rate max_frames =
     (let max_range = int len_vr;
          frame_number = sort [0, start_idx, max_range] ! 1
      in case py_range frame_number max_range sample_rate of
           Inl e \<Rightarrow> Inl e
         | Inr frame_range \<Rightarrow> Inr (py_slice frame_range 0 max_frames))"

subsection \<open>process_video (lines 82-102)\<close>

text \<open>\<^verbatim>\<open>get_frame_batch\<close> is an argument of \<^verbatim>\<open>process_video\<close>; here its outcome is,
  with the outcome of \<^verbatim>\<open>torchaudio.load\<close> (one channel of samples and the sample rate).
  The result is the audio window; an empty \<^verbatim>\<open>idxs\<close> raises at \<^verbatim>\<open>idxs[0]\<close>.\<close>

definition process_video ::
  "py_error + int list \<Rightarrow> py_error + ('a list \<times> int) \<Rightarrow> py_error + 'a list" where
  "process_video frame_batch audio_file =
     (case frame_batch of
        Inl e \<Rightarrow> Inl e
      | Inr idxs \<Rightarrow>
         (case audio_file of
            Inl e \<Rightarrow> Inl e
          | Inr (waveform, sample_rate) \<Rightarrow>
             (let tiled = concat (replicate 10 waveform);
                  audio = py_slice tiled 0 (sample_rate * 10)
              in case idxs of
                   [] \<Rightarrow> Inl IndexError
                 | i0 # _ \<Rightarrow>
                    (let start = py_int (of_int (sample_rate * i0) / 30);
                         stop = start + py_int (of_int (int (length idxs)) / 24 * of_int sample_rate)
                     in Inr (py_slice audio start stop)))))"

subsection \<open>VideoJsonDataset: the manifest (lines 127-168, 259-263)\<close>

datatype json =
  JNull | JBool bool | JNum int | JStr string | JArr "json list" | JObj "(string \<times> json) list"

text \<open>Every exception raised inside the \<^verbatim>\<open>try\<close> of \<^verbatim>\<open>load_from_json\<close> meets the same bare
  \<^verbatim>\<open>except\<close>, so the operations on the parsed manifest return \<open>None\<close> for any of them:
  \<^verbatim>\<open>x[key]\<close>, \<^verbatim>\<open>key in x\<close> and iteration.\<close>

fun contains_str :: "string \<Rightarrow> string \<Rightarrow> bool" where
  "contains_str key [] = (key = [])"
| "contains_str key (c # cs) = (take (length key) (c # cs) = key \<or> contains_str key cs)"

fun py_getitem :: "json \<Rightarrow> string \<Rightarrow> json option" where
  "py_getitem (JObj kvs) key = map_of kvs key"
| "py_getitem _ key = None"

fun py_contains :: "string \<Rightarrow> json \<Rightarrow> bool option" where
  "py_contains key (JObj kvs) = Some (key \<in> set (map fst kvs))"
| "py_contains key (JArr xs) = Some (JStr key \<in> set xs)"
| "py_contains key (JStr s) = Some (contains_str key s)"
| "py_contains key _ = None"

fun py_iter :: "json \<Rightarrow> json list option" where
  "py_iter (JArr xs) = Some xs"
| "py_iter (JObj kvs) = Some (map (\<lambda>kv. JStr (fst kv)) kvs)"
| "py_iter (JStr s) = Some (map (\<lambda>c. JStr [c]) s)"
| "py_iter _ = None"

record train_item =
  video_ref :: json
  frame_index :: json
  prompt :: json
  clip_path :: json

definition build_json_dict :: "string \<Rightarrow> json \<Rightarrow> json \<Rightarrow> train_item option" where
  "build_json_dict key data nested_data =
     do {
       has_clip \<leftarrow> py_contains ''clip_path'' nested_data;
       clip \<leftarrow> (if has_clip then py_getitem nested_data ''clip_path'' else Some JNull);
       v \<leftarrow> py_getitem data key;
       fi \<leftarrow> py_getitem nested_data ''frame_index'';
       p \<leftarrow> py_getitem nested_data ''prompt'';
       Some \<lparr>video_ref = v, frame_index = fi, prompt = p, clip_path = clip\<rparr>
     }"

fun build_json_inner ::
  "string \<Rightarrow> json \<Rightarrow> json list \<Rightarrow> train_item list \<Rightarrow> train_item list option" where
  "build_json_inner key data [] extended_data = Some extended_data"
| "build_json_inner key data (nested_data # rest) extended_data =
     do {
       item \<leftarrow> build_json_dict key data nested_data;
       build_json_inner key data rest (extended_data @ [item])
     }"

fun build_json_outer :: "string \<Rightarrow> json list \<Rightarrow> train_item list \<Rightarrow> train_item list option" where
  "build_json_outer key [] extended_data = Some extended_data"
| "build_json_outer key (data # rest) extended_data =
     do {
       inner \<leftarrow> py_getitem data ''data'';
       nested \<leftarrow> py_iter inner;
       extended_data' \<leftarrow> build_json_inner key data nested extended_data;
       build_json_outer key rest extended_data'
     }"

definition build_json :: "string \<Rightarrow> json \<Rightarrow> train_item list option" where
  "build_json key json_data =
     do {
       groups \<leftarrow> py_getitem json_data ''data'';
       datas \<leftarrow> py_iter groups;
       build_json_outer key datas []
     }"

text \<open>The dataset object, with the attributes the manifest path touches. \<open>train_data\<close> is
  \<open>None\<close> for Python's \<^verbatim>\<open>None\<close>.\<close>

record video_json_dataset =
  vid_data_key :: string
  train_data :: "train_item list option"

definition open_text :: "file_system \<Rightarrow> string \<Rightarrow> string option" where
  "open_text fs path = (case fs path of Some (FileText s) \<Rightarrow> Some s | _ \<Rightarrow> None)"

text \<open>\<^verbatim>\<open>load_from_json\<close> returns the built list, or, from the \<^verbatim>\<open>except\<close> branch, sets
  \<^verbatim>\<open>self.train_data = []\<close> and returns nothing. \<^verbatim>\<open>json.load\<close> is the argument
  \<open>json_load\<close>. The result is the returned value and the object.\<close>

definition load_from_json ::
  "file_system \<Rightarrow> (string \<Rightarrow> json option) \<Rightarrow> video_json_dataset \<Rightarrow> string
     \<Rightarrow> train_item list option \<times> video_json_dataset" where
  "load_from_json fs json_load self path =
     (case do { txt \<leftarrow> open_text fs path;
                json_data \<leftarrow> json_load txt;
                build_json (vid_data_key self) json_data } of
        Some extended_data \<Rightarrow> (Some extended_data, self)
      | None \<Rightarrow> (None, self\<lparr>train_data := Some []\<rparr>))"

text \<open>\<^verbatim>\<open>__init__\<close> (lines 126-127): \<^verbatim>\<open>self.train_data = self.load_from_json(...)\<close> stores
  the returned value over whatever the call has set.\<close>

definition video_json_dataset_init ::
  "file_system \<Rightarrow> (string \<Rightarrow> json option) \<Rightarrow> string \<Rightarrow> string \<Rightarrow> video_json_dataset" where
  "video_json_dataset_init fs json_load json_path key =
     (let self0 = \<lparr>vid_data_key = key, train_data = None\<rparr>;
          (ret, self1) = load_from_json fs json_load self0 json_path
      in self1\<lparr>train_data := ret\<rparr>)"

definition video_json_len :: "video_json_dataset \<Rightarrow> nat" where
  "video_json_len self = (case train_data self of Some items \<Rightarrow> length items | None \<Rightarrow> 0)"

subsection \<open>SingleVideoDataset.create_video_chunks (lines 314-333)\<close>

text \<open>\<^verbatim>\<open>chunk\<close> cuts the iterator into tuples of \<open>sz\<close> items until an empty tuple comes;
  \<^verbatim>\<open>islice\<close> raises \<^verbatim>\<open>ValueError\<close> on a negative size.\<close>

function chunk_iter :: "nat \<Rightarrow> 'a list \<Rightarrow> 'a list list" where
  "chunk_iter sz xs =
     (if sz = 0 \<or> xs = [] then [] else take sz xs # chunk_iter sz (drop sz xs))"
  by pat_completeness auto
termination
  by (relation "measure (\<lambda>(sz, xs). length xs)") auto

declare chunk_iter.simps [simp del]

definition chunk :: "'a list \<Rightarrow> int \<Rightarrow> py_error + 'a list list" where
  "chunk it sz = (if sz < 0 then Inl ValueError else Inr (chunk_iter (nat sz) it))"

text \<open>The deletion loop (lines 323-327) mutates \<^verbatim>\<open>self.frames\<close> while it iterates over
  it. The inner loop runs over the tuple taken at position \<open>i\<close> and deletes position \<open>i\<close>
  of the current list for every frame number beyond the length; the outer loop goes on
  at position \<open>i + 1\<close> of the list as it then is.\<close>

fun delete_for_frames :: "nat \<Rightarrow> int \<Rightarrow> int list \<Rightarrow> int list list \<Rightarrow> py_error + int list list" where
  "delete_for_frames i len_vr [] frames = Inr frames"
| "delete_for_frames i len_vr (frame_num # rest) frames =
     (if len_vr < frame_num then
        (case list_del frames i of
           Inl e \<Rightarrow> Inl e
         | Inr frames' \<Rightarrow> delete_for_frames i len_vr rest frames')
      else delete_for_frames i len_vr rest frames)"

function delete_out_of_range :: "nat \<Rightarrow> int \<Rightarrow> int list list \<Rightarrow> py_error + int list list" where
  "delete_out_of_range i len_vr frames =
     (if i < length frames then
        (case delete_for_frames i len_vr (frames ! i) frames of
           Inl e \<Rightarrow> Inl e
         | Inr frames' \<Rightarrow> delete_out_of_range (Suc i) len_vr frames')
      else Inr frames)"
  by pat_completeness auto
termination
proof (relation "measure (\<lambda>(i, len_vr, frames). length frames - i)")
  show "wf (measure (\<lambda>(i, len_vr, frames). length frames - i))" by simp
next
  fix i :: nat and len_vr :: int and frames frames' :: "int list list"
  assume i: "i < length frames"
    and r: "delete_for_frames i len_vr (frames ! i) frames = Inr frames'"
  have "\<And>fr fr'. delete_for_frames i len_vr cur fr = Inr fr' \<Longrightarrow> length fr' \<le> length fr" for cur
  proof (induction cur)
    case Nil
    then show ?case by simp
  next
    case (Cons c cur)
    show ?case
    proof (cases "len_vr < c")
      case True
      with Cons.prems obtain mid where m: "list_del fr i = Inr mid"
        and d: "delete_for_frames i len_vr cur mid = Inr fr'"
        by (auto split: sum.splits)
      from m have "length mid \<le> length fr" by (auto simp: list_del_def split: if_splits)
      with Cons.IH[OF d] show ?thesis by simp
    next
      case False
      with Cons.prems Cons.IH show ?thesis by simp
    qed
  qed
  from this[OF r] i
  show "((Suc i, len_vr, frames'), (i, len_vr, frames))
          \<in> measure (\<lambda>(i, len_vr, frames). length frames - i)"
    by simp
qed

declare delete_out_of_range.simps [simp del]

definition create_video_chunks :: "nat \<Rightarrow> int \<Rightarrow> int \<Rightarrow> py_error + int list list" where
  "create_video_chunks len_vr frame_step n_sample_frames =
     (case py_range 1 (int len_vr) frame_step of
        Inl e \<Rightarrow> Inl e
      | Inr vr_range \<Rightarrow>
         (case chunk vr_range n_sample_frames of
            Inl e \<Rightarrow> Inl e
          | Inr frames \<Rightarrow> delete_out_of_range 0 (int len_vr) frames))"

subsection \<open>VideoFolderDataset.get_frame_batch (lines 594-618)\<close>

record video_reader =
  vr_len :: nat
  avg_fps :: rat

text \<open>The local variables at line 608: the stride, the usable length, the frame count
  after shrinking and the start. A division by zero raises: \<^verbatim>\<open>native_fps / self.fps\<close> for
  \<^verbatim>\<open>fps = 0\<close>, and \<^verbatim>\<open>len(vr) // every_nth_frame\<close> for an empty reader, whose stride
  \<^verbatim>\<open>min(len(vr), ...)\<close> is 0. The bare \<^verbatim>\<open>except\<close> of lines 604-607 replaces a failed
  \<^verbatim>\<open>randint\<close> by \<^verbatim>\<open>int(native_fps)\<close>.\<close>

record frame_locals =
  every_nth_frame :: int
  effective_length :: int
  n_frames :: int
  effective_idx :: int

definition frame_batch_locals ::
  "video_reader \<Rightarrow> int \<Rightarrow> int \<Rightarrow> nat \<Rightarrow> py_error + frame_locals" where
  "frame_batch_locals vr target_fps n_sample r =
     (let native_fps = avg_fps vr in
      if target_fps = 0 then Inl ZeroDivisionError
      else
        let every_nth = max 1 (py_round (native_fps / of_int target_fps + 1 / 100000));
            every_nth = min (int (vr_len vr)) every_nth
        in if every_nth = 0 then Inl ZeroDivisionError
           else
             let eff_len = int (vr_len vr) div every_nth;
                 n = (if eff_len < n_sample then eff_len else n_sample);
                 eff_idx = (case randint 0 (eff_len - n * every_nth - 5) r of
                              Inr v \<Rightarrow> v
                            | Inl e \<Rightarrow> py_int native_fps)
             in Inr \<lparr>every_nth_frame = every_nth, effective_length = eff_len,
                      n_frames = n, effective_idx = eff_idx\<rparr>)"

text \<open>Line 609: \<^verbatim>\<open>every_nth_frame * np.arange(effective_idx, effective_idx + n_sample_frames)\<close>;
  line 611: the test that guards the tiling.\<close>

definition np_arange :: "int \<Rightarrow> int \<Rightarrow> int list" where
  "np_arange a b = range_up a b 1"

definition arange_idxs :: "frame_locals \<Rightarrow> int list" where
  "arange_idxs p =
     map (\<lambda>k. every_nth_frame p * k)
       (np_arange (effective_idx p) (effective_idx p + n_frames p))"

definition needs_tiling :: "frame_locals \<Rightarrow> bool" where
  "needs_tiling p = (int (length (arange_idxs p)) \<noteq> n_frames p)"

text \<open>The frame indices the method returns (the decoded frames are the library's).\<close>

definition get_frame_batch :: "video_reader \<Rightarrow> int \<Rightarrow> int \<Rightarrow> nat \<Rightarrow> py_error + int list" where
  "get_frame_batch vr target_fps n_sample r =
     (case frame_batch_locals vr target_fps n_sample r of
        Inl e \<Rightarrow> Inl e
      | Inr p \<Rightarrow>
          (let idxs = arange_idxs p
           in Inr (if needs_tiling p
                   then py_slice (concat (replicate 10 idxs)) 0 (n_frames p)
                   else idxs)))"

text \<open>The stride as the specification words it: \<^verbatim>\<open>round(native_fps/target_fps)\<close> clamped
  to \<open>[1, L]\<close>, as a function of the ratio it rounds.\<close>

definition spec_every_nth :: "rat \<Rightarrow> nat \<Rightarrow> int" where
  "spec_every_nth ratio L = min (int L) (max 1 (py_round ratio))"

subsection \<open>VideoFolderDataset.__getitem__ (lines 646-676)\<close>

type_synonym shape = "int list"

record video_folder_dataset =
  video_files :: "string list"
  width :: int
  height :: int
  n_sample_frames :: int
  fps :: int
  fallback_prompt :: string
  valid_videos :: "int list"

definition get_video_shape :: "video_folder_dataset \<Rightarrow> shape" where
  "get_video_shape self = [n_sample_frames self, 3, 256, 384]"

definition get_audio_shape :: "video_folder_dataset \<Rightarrow> py_error + shape" where
  "get_audio_shape self =
     (if fps self = 0 then Inl ZeroDivisionError
      else Inr [1, py_int (16000 * (of_int (n_sample_frames self) / of_int (fps self)))])"

text \<open>The body of the \<^verbatim>\<open>try\<close> (lines 656-658). \<^verbatim>\<open>process_video_wrapper\<close> decodes, so it
  is an argument: from the path and the number of the attempt (its draws and the state
  of the files differ between attempts) to the sizes of \<^verbatim>\<open>video[0]\<close> and \<^verbatim>\<open>audio\<close>, or the
  exception it raises.\<close>

definition fetch_attempt ::
  "video_folder_dataset \<Rightarrow> (string \<Rightarrow> nat \<Rightarrow> py_error + shape \<times> shape) \<Rightarrow> nat \<Rightarrow> int
     \<Rightarrow> py_error + shape \<times> shape" where
  "fetch_attempt self process_video_wrapper t index =
     (case py_index (video_files self) index of
        Inl e \<Rightarrow> Inl e
      | Inr vid_path \<Rightarrow>
         (case process_video_wrapper vid_path t of
            Inl e \<Rightarrow> Inl e
          | Inr (video_size, audio_size) \<Rightarrow>
              if video_size \<noteq> get_video_shape self then Inl AssertionError
              else (case get_audio_shape self of
                      Inl e \<Rightarrow> Inl e
                    | Inr expected \<Rightarrow>
                        if audio_size \<noteq> expected then Inl AssertionError
                        else Inr (video_size, audio_size))))"

text \<open>The \<^verbatim>\<open>while True\<close> loop (lines 654-663). It may run forever, so it is a partial
  function: \<open>None\<close> is the loop that never leaves. \<open>Some (Inl e)\<close> is an exception that
  leaves \<^verbatim>\<open>__getitem__\<close>: \<^verbatim>\<open>random.choice\<close> stands in the \<^verbatim>\<open>except\<close> clause, outside the
  \<^verbatim>\<open>try\<close>, so nothing catches what it raises. \<open>valid_videos\<close> is the set as a list
  without repetitions; \<open>rnd t\<close> is the draw of attempt \<open>t\<close>.\<close>

partial_function (option) getitem_loop ::
  "video_folder_dataset \<Rightarrow> (string \<Rightarrow> nat \<Rightarrow> py_error + shape \<times> shape) \<Rightarrow> (nat \<Rightarrow> nat) \<Rightarrow> nat \<Rightarrow> int
     \<Rightarrow> (py_error + int \<times> video_folder_dataset) option" where
  "getitem_loop self process_video_wrapper rnd t index =
     (case fetch_attempt self process_video_wrapper t index of
        Inr ok \<Rightarrow> Some (Inr (index, self\<lparr>valid_videos := List.insert index (valid_videos self)\<rparr>))
      | Inl e \<Rightarrow>
         (case random_choice (valid_videos self) (rnd t) of
            Inl e' \<Rightarrow> Some (Inl e')
          | Inr index' \<Rightarrow> getitem_loop self process_video_wrapper rnd (Suc t) index'))"

text \<open>The caption of the folder variant (lines 667-671): read inline, with no
  \<^verbatim>\<open>try\<close> around it.\<close>

definition folder_text_prompt :: "file_system \<Rightarrow> string \<Rightarrow> string \<Rightarrow> py_error + string" where
  "folder_text_prompt fs video_file fallback =
     (let caption_path = str_replace video_file ''.mp4'' ''.txt''
      in if path_exists fs caption_path then read_text_file fs caption_path
         else Inr fallback)"

text \<open>\<^verbatim>\<open>__getitem__\<close>: the loop, then the caption; the result is the text prompt of the
  item and the object.\<close>

definition getitem ::
  "file_system \<Rightarrow> video_folder_dataset \<Rightarrow> (string \<Rightarrow> nat \<Rightarrow> py_error + shape \<times> shape) \<Rightarrow> (nat \<Rightarrow> nat) \<Rightarrow> int
     \<Rightarrow> (py_error + string \<times> video_folder_dataset) option" where
  "getitem fs self process_video_wrapper rnd index =
     (case getitem_loop self process_video_wrapper rnd 0 index of
        None \<Rightarrow> None
      | Some (Inl e) \<Rightarrow> Some (Inl e)
      | Some (Inr (index', self')) \<Rightarrow>
         (case py_index (video_files self') index' of
            Inl e \<Rightarrow> Some (Inl e)
          | Inr vid_path \<Rightarrow>
             (case folder_text_prompt fs vid_path (fallback_prompt self') of
                Inl e \<Rightarrow> Some (Inl e)
              | Inr text_prompt \<Rightarrow> Some (Inr (text_prompt, self')))))"

subsection \<open>Example inputs\<close>

text \<open>A folder dataset of one video in which no fetch has succeeded yet.\<close>

definition ds0 :: video_folder_dataset where
  "ds0 = \<lparr>video_files = [''data/video/a.mp4''], width = 256, height = 256,
           n_sample_frames = 24, fps = 24, fallback_prompt = ''a video of <*>'',
           valid_videos = []\<rparr>"

text \<open>A folder dataset configured for 24 frames at 24 fps and 384 x 256 pixels.\<close>

definition ds1 :: video_folder_dataset where
  "ds1 = \<lparr>video_files = [''data/video/a.mp4''], width = 384, height = 256,
           n_sample_frames = 24, fps = 24, fallback_prompt = ''a video of <*>'',
           valid_videos = []\<rparr>"

section \<open>The frame window selector\<close>

lemma frame_number_clamp: "sort [0, i0, int L] ! 1 = max 0 (min i0 (int L))"
  by (simp add: max_def min_def)

lemma range_up_nth_length:
  "0 < s \<Longrightarrow> (k < length (range_up a b s)) = (a + int k * s < b)"
proof (induction a b s arbitrary: k rule: range_up.induct)
  case (1 a b s)
  show ?case
  proof (cases "a < b")
    case False
    with 1(2) have "a + int k * s \<ge> b"
      by (smt (verit) mult_nonneg_nonneg of_nat_0_le_iff)
    with False 1(2) show ?thesis by (subst range_up.simps) simp
  next
    case True
    show ?thesis
    proof (cases k)
      case 0
      with True 1(2) show ?thesis by (subst range_up.simps) simp
    next
      case (Suc j)
      have "(j < length (range_up (a + s) b s)) = (a + s + int j * s < b)"
        using 1(1)[of j] True 1(2) by simp
      with Suc True 1(2) show ?thesis
        by (subst range_up.simps) (simp add: algebra_simps)
    qed
  qed
qed

lemma range_up_nth:
  "0 < s \<Longrightarrow> k < length (range_up a b s) \<Longrightarrow> range_up a b s ! k = a + int k * s"
proof (induction a b s arbitrary: k rule: range_up.induct)
  case (1 a b s)
  from 1(3) have ab: "a < b" by (subst (asm) range_up.simps) (auto split: if_splits)
  show ?case
  proof (cases k)
    case 0
    with ab 1(2) show ?thesis by (subst range_up.simps) simp
  next
    case (Suc j)
    from 1(3) Suc ab 1(2) have "j < length (range_up (a + s) b s)"
      by (subst (asm) range_up.simps) simp
    then have "range_up (a + s) b s ! j = a + s + int j * s"
      using 1(1)[of j] ab 1(2) by simp
    with Suc ab 1(2) show ?thesis
      by (subst range_up.simps) (simp add: algebra_simps)
  qed
qed

lemma py_slice_prefix: "0 \<le> n \<Longrightarrow> py_slice xs 0 n = take (nat n) xs"
  by (simp add: py_slice_def Let_def min_def)

lemma sorted_wrt_range_up: "0 < s \<Longrightarrow> sorted_wrt (<) (range_up a b s)"
proof -
  assume s: "0 < s"
  have "\<And>i j. i < j \<Longrightarrow> j < length (range_up a b s)
          \<Longrightarrow> range_up a b s ! i < range_up a b s ! j"
  proof -
    fix i j assume ij: "i < j" and j: "j < length (range_up a b s)"
    from ij have "int i * s < int j * s" using s by simp
    then show "range_up a b s ! i < range_up a b s ! j"
      using range_up_nth[OF s, of i a b] range_up_nth[OF s j] ij j by simp
  qed
  then show ?thesis by (simp add: sorted_wrt_iff_nth_less)
qed

text \<open>
  C2 (as amended). For every source length \<open>L\<close>, start offset \<open>i0\<close>, step \<open>s \<ge> 1\<close> and
  requested count \<open>n \<ge> 0\<close>, \<^verbatim>\<open>get_video_frames\<close> returns strictly increasing frame indices,
  each within \<open>[0, L)\<close>, and at most \<open>n\<close> of them. It returns exactly \<open>n\<close> if and only if
  \<open>n = 0\<close> or the last index of the full window, \<open>f + (n - 1) * s\<close> with \<open>f\<close> the offset
  clamped into \<open>[0, L]\<close>, is below \<open>L\<close>. The bound \<open>n \<le> L\<close> alone does not give \<open>n\<close> indices.
\<close>

theorem get_video_frames_window:
  assumes s: "1 \<le> s" and n: "0 \<le> n"
  shows "\<exists>xs. get_video_frames L i0 s n = Inr xs
           \<and> int (length xs) \<le> n
           \<and> sorted_wrt (<) xs
           \<and> list_all (\<lambda>x. 0 \<le> x \<and> x < int L) xs
           \<and> (int (length xs) = n) = (n = 0 \<or> max 0 (min i0 (int L)) + (n - 1) * s < int L)"
proof -
  define f where "f = max 0 (min i0 (int L))"
  define r where "r = range_up f (int L) s"
  define xs where "xs = take (nat n) r"
  from s have s0: "0 < s" by simp
  have res: "get_video_frames L i0 s n = Inr xs"
    unfolding get_video_frames_def Let_def frame_number_clamp
    using s0 n by (simp add: py_range_def py_slice_prefix f_def r_def xs_def)
  have len: "int (length xs) \<le> n" using n by (simp add: xs_def)
  have srt: "sorted_wrt (<) xs"
    unfolding xs_def r_def by (rule sorted_wrt_take[OF sorted_wrt_range_up[OF s0]])
  have f0: "0 \<le> f" by (simp add: f_def)
  have bnd: "list_all (\<lambda>x. 0 \<le> x \<and> x < int L) xs"
    unfolding list_all_length
  proof (intro allI impI)
    fix k assume k: "k < length xs"
    then have kr: "k < length r" by (simp add: xs_def)
    then have "r ! k = f + int k * s" unfolding r_def by (rule range_up_nth[OF s0])
    moreover have "f + int k * s < int L"
      using kr range_up_nth_length[OF s0, of k f "int L"] by (simp add: r_def)
    moreover have "0 \<le> int k * s" using s0 by simp
    ultimately show "0 \<le> xs ! k \<and> xs ! k < int L" using k f0 by (simp add: xs_def)
  qed
  have exact: "(int (length xs) = n) = (n = 0 \<or> f + (n - 1) * s < int L)"
  proof (cases "n = 0")
    case True
    then show ?thesis by (simp add: xs_def)
  next
    case False
    with n have n1: "1 \<le> n" by simp
    have "(int (length xs) = n) = (nat n \<le> length r)"
      using n by (auto simp: xs_def min_def)
    also have "\<dots> = (nat (n - 1) < length r)" using n1 by auto
    also have "\<dots> = (f + int (nat (n - 1)) * s < int L)"
      unfolding r_def by (rule range_up_nth_length[OF s0])
    also have "\<dots> = (f + (n - 1) * s < int L)" using n1 by simp
    finally show ?thesis using False by simp
  qed
  from res len srt bnd exact show ?thesis unfolding f_def by blast
qed

theorem get_video_frames_window_witness:
  "get_video_frames 10 0 1 10 = Inr [0, 1, 2, 3, 4, 5, 6, 7, 8, 9]
   \<and> (\<exists>xs. get_video_frames 10 3 2 4 = Inr xs \<and> int (length xs) \<le> 4 \<and> sorted_wrt (<) xs
        \<and> list_all (\<lambda>x. 0 \<le> x \<and> x < int 10) xs \<and> (int (length xs) = 4) = True)"
proof -
  have a: "(1::int) \<le> 2" and b: "(0::int) \<le> 4" by simp_all
  have "get_video_frames 10 0 1 10 = Inr [0, 1, 2, 3, 4, 5, 6, 7, 8, 9]" by code_simp
  then show ?thesis using get_video_frames_window[OF a b, of 10 3] by simp
qed

text \<open>
  C2 as stated fails: a source of 10 frames, 10 frames requested, step 1 and the start
  offset 1 (the default \<^verbatim>\<open>sample_start_idx\<close>) satisfy \<open>n \<le> L\<close>, and the selector returns
  the 9 indices from 1 to 9.
\<close>

theorem get_video_frames_short_counterexample:
  "get_video_frames 10 1 1 10 = Inr [1, 2, 3, 4, 5, 6, 7, 8, 9]
   \<and> length [1, 2, 3, 4, 5, 6, 7, 8, 9 :: int] < 10"
  by code_simp

section \<open>The audio window of process_video\<close>

lemma length_tiled: "length (concat (replicate k w)) = k * length w"
  by (induction k) simp_all

lemma py_slice_length:
  "0 \<le> a \<Longrightarrow> 0 \<le> b \<Longrightarrow>
   int (length (py_slice xs a b)) = max 0 (min b (int (length xs)) - min a (int (length xs)))"
  by (auto simp: py_slice_def Let_def min_def max_def)

lemma py_int_nonneg: "0 \<le> x \<Longrightarrow> py_int x = \<lfloor>x\<rfloor>"
  by (simp add: py_int_def)

lemma audio_window_length:
  assumes w: "length waveform = 16000" and n: "length idxs = 24" and i0: "0 \<le> hd idxs"
  shows "\<exists>audio. process_video (Inr idxs) (Inr (waveform, 16000)) = Inr audio
           \<and> int (length audio) = min 16000 (160000 - min 160000 (16000 * hd idxs div 30))"
proof -
  from n obtain i rest where idxs: "idxs = i # rest" by (cases idxs) auto
  with i0 have i: "0 \<le> i" by simp
  define start where "start = 16000 * i div 30"
  have st: "py_int (of_int (16000 * i) / 30) = start"
  proof -
    have "(of_int (16000 * i) :: rat) / 30 = of_int (16000 * i) / of_int 30" by simp
    then have "\<lfloor>(of_int (16000 * i) :: rat) / 30\<rfloor> = 16000 * i div 30"
      by (simp only: floor_divide_of_int_eq)
    moreover have "0 \<le> (of_int (16000 * i) :: rat) / 30" using i by simp
    ultimately show ?thesis by (simp add: py_int_nonneg start_def)
  qed
  have ln: "py_int (of_int (int (length idxs)) / 24 * 16000) = 16000"
    using n by (simp add: py_int_def)
  have s0: "0 \<le> start" using i by (simp add: start_def pos_imp_zdiv_nonneg_iff)
  define buf where "buf = py_slice (concat (replicate 10 waveform)) 0 160000"
  have lb: "int (length buf) = 160000"
    unfolding buf_def using w by (simp add: py_slice_length length_tiled)
  define audio where "audio = py_slice buf start (start + 16000)"
  have res: "process_video (Inr idxs) (Inr (waveform, 16000)) = Inr audio"
    using st ln idxs n by (simp add: process_video_def Let_def audio_def buf_def)
  have la: "int (length audio) = min 16000 (160000 - min 160000 start)"
    unfolding audio_def using s0 lb by (simp add: py_slice_length min_def max_def)
  from idxs have "hd idxs = i" by simp
  with res la show ?thesis unfolding start_def by blast
qed

text \<open>
  C3 (as amended). For a 1-second waveform at 16000 Hz, tiled ten times and cut to the 10 s
  buffer of 160000 samples, and a frame window of 24 indices whose first index \<open>i\<close> is not
  negative, \<^verbatim>\<open>process_video\<close> returns an audio window that starts at sample
  \<open>16000 * i div 30\<close> and has \<open>min 16000 (160000 - min 160000 start)\<close> samples. That is
  exactly \<^verbatim>\<open>int(len(idxs)/24 * sample_rate)\<close> = 16000 samples when the window ends inside
  the buffer, which is the case for \<open>i \<le> 270\<close>; a later window is cut at the end of the
  buffer.
\<close>

theorem process_video_audio_window:
  assumes w: "length waveform = 16000" and n: "length idxs = 24" and i0: "0 \<le> hd idxs"
  shows "\<exists>audio. process_video (Inr idxs) (Inr (waveform, 16000)) = Inr audio
           \<and> int (length audio) = min 16000 (160000 - min 160000 (16000 * hd idxs div 30))
           \<and> (hd idxs \<le> 270 \<longrightarrow> int (length audio) = py_int (of_int (int (length idxs)) / 24 * 16000))"
proof -
  from audio_window_length[OF w n i0] obtain audio
    where res: "process_video (Inr idxs) (Inr (waveform, 16000)) = Inr audio"
      and la: "int (length audio) = min 16000 (160000 - min 160000 (16000 * hd idxs div 30))"
    by blast
  have ln: "py_int (of_int (int (length idxs)) / 24 * 16000) = 16000"
    using n by (simp add: py_int_def)
  have "hd idxs \<le> 270 \<longrightarrow>
          int (length audio) = py_int (of_int (int (length idxs)) / 24 * 16000)"
  proof
    assume "hd idxs \<le> 270"
    then have "16000 * hd idxs div 30 \<le> 144000" by linarith
    with la have "int (length audio) = 16000" by simp
    with ln show "int (length audio) = py_int (of_int (int (length idxs)) / 24 * 16000)"
      by (simp only:)
  qed
  with res la show ?thesis by blast
qed

theorem process_video_audio_window_witness:
  "int (length (replicate 16000 (0::int))) = 16000 \<and> length [30..53] = 24
   \<and> (0::int) \<le> hd [30..53] \<and> hd [30..53] \<le> (270::int)
   \<and> (\<exists>audio. process_video (Inr [30..53]) (Inr (replicate 16000 (0::int), 16000)) = Inr audio
         \<and> int (length audio) = 16000)"
proof -
  have h: "hd [30..53] = (30::int)" by (simp add: upto.simps)
  show ?thesis
    using process_video_audio_window[of "replicate 16000 (0::int)" "[30..53]"] h
    by (simp add: py_int_def)
qed

text \<open>
  C3 as stated fails: for the 24 frames 271 to 294 (a window the folder variant can draw
  from a 300-frame source) the audio window starts at sample 144533 and the buffer ends
  at 160000, so 15467 samples come back, not the 16000 of the formula.
\<close>

theorem process_video_audio_truncated_counterexample:
  "map_sum id length
     (process_video (Inr [271..294]) (Inr (replicate 16000 (0::int), 16000))) = Inr 15467
   \<and> py_int (of_int (int (length [271..294])) / 24 * 16000) = 16000"
proof -
  have h: "hd [271..294] = (271::int)" by (simp add: upto.simps)
  obtain audio where
    "process_video (Inr [271..294]) (Inr (replicate 16000 (0::int), 16000)) = Inr audio"
    and "int (length audio) = 15467"
    using audio_window_length[of "replicate 16000 (0::int)" "[271..294]"] h
    by auto
  then show ?thesis by (simp add: py_int_def)
qed

section \<open>The rate-based frame selection\<close>

lemma np_arange_length: "length (np_arange a b) = nat (b - a)"
proof -
  define xs where "xs = range_up a b 1"
  have iff: "(k < length xs) = (a + int k < b)" for k
    using range_up_nth_length[of 1 k a b] by (simp add: xs_def)
  have "\<not> nat (b - a) < length xs"
  proof
    assume "nat (b - a) < length xs"
    then have "a + int (nat (b - a)) < b" by (simp only: iff)
    then show False by linarith
  qed
  moreover have "\<not> length xs < nat (b - a)"
  proof
    assume h: "length xs < nat (b - a)"
    have "\<not> a + int (length xs) < b" using iff[of "length xs"] by simp
    with h show False by linarith
  qed
  ultimately have "length xs = nat (b - a)" by linarith
  then show ?thesis by (simp add: np_arange_def xs_def)
qed

lemma np_arange_nth: "k < length (np_arange a b) \<Longrightarrow> np_arange a b ! k = a + int k"
  using range_up_nth[of 1 k a b] by (simp add: np_arange_def)

lemma arange_idxs_length: "length (arange_idxs p) = nat (n_frames p)"
  by (simp add: arange_idxs_def np_arange_length)

lemma arange_idxs_nth:
  "k < length (arange_idxs p) \<Longrightarrow> arange_idxs p ! k = every_nth_frame p * (effective_idx p + int k)"
  by (simp add: arange_idxs_def np_arange_nth)

lemma frame_batch_locals_unfold:
  fixes vr target_fps n r
  defines "e \<equiv> spec_every_nth (avg_fps vr / of_int target_fps + 1 / 100000) (vr_len vr)"
  defines "l \<equiv> int (vr_len vr) div e"
  defines "m \<equiv> min n l"
  shows "frame_batch_locals vr target_fps n r =
     (if target_fps = 0 \<or> e = 0 then Inl ZeroDivisionError
      else Inr \<lparr>every_nth_frame = e, effective_length = l, n_frames = m,
                effective_idx = (case randint 0 (l - m * e - 5) r of
                                   Inr v \<Rightarrow> v | Inl x \<Rightarrow> py_int (avg_fps vr))\<rparr>)"
  unfolding frame_batch_locals_def Let_def e_def l_def m_def spec_every_nth_def min_def
  by simp

lemma spec_every_nth_bounds:
  "spec_every_nth q L \<le> int L" "1 \<le> L \<Longrightarrow> 1 \<le> spec_every_nth q L"
  "spec_every_nth q L \<noteq> 0 \<Longrightarrow> 1 \<le> L"
  unfolding spec_every_nth_def by linarith+

lemma frame_batch_locals_Inr:
  assumes "frame_batch_locals vr target_fps n r = Inr p"
  shows "target_fps \<noteq> 0" and "1 \<le> vr_len vr"
    and "every_nth_frame p
           = spec_every_nth (avg_fps vr / of_int target_fps + 1 / 100000) (vr_len vr)"
    and "1 \<le> every_nth_frame p" and "every_nth_frame p \<le> int (vr_len vr)"
    and "effective_length p = int (vr_len vr) div every_nth_frame p"
    and "n_frames p = min n (effective_length p)"
    and "effective_idx p =
           (case randint 0 (effective_length p - n_frames p * every_nth_frame p - 5) r of
              Inr v \<Rightarrow> v | Inl e \<Rightarrow> py_int (avg_fps vr))"
proof -
  define e where "e = spec_every_nth (avg_fps vr / of_int target_fps + 1 / 100000) (vr_len vr)"
  from assms have c: "\<not> (target_fps = 0 \<or> e = 0)"
    unfolding frame_batch_locals_unfold e_def by (auto split: if_splits)
  then show "target_fps \<noteq> 0" by simp
  from c show L: "1 \<le> vr_len vr" using spec_every_nth_bounds(3)[of _ "vr_len vr"] e_def by blast
  from assms c have p: "p = \<lparr>every_nth_frame = e, effective_length = int (vr_len vr) div e,
      n_frames = min n (int (vr_len vr) div e),
      effective_idx = (case randint 0 (int (vr_len vr) div e - min n (int (vr_len vr) div e) * e - 5) r of
                         Inr v \<Rightarrow> v | Inl x \<Rightarrow> py_int (avg_fps vr))\<rparr>"
    unfolding frame_batch_locals_unfold e_def by simp
  show "every_nth_frame p
           = spec_every_nth (avg_fps vr / of_int target_fps + 1 / 100000) (vr_len vr)"
    by (simp add: p e_def)
  show "1 \<le> every_nth_frame p" using spec_every_nth_bounds(2)[OF L] by (simp add: p e_def)
  show "every_nth_frame p \<le> int (vr_len vr)" using spec_every_nth_bounds(1) by (simp add: p e_def)
  show "effective_length p = int (vr_len vr) div every_nth_frame p" by (simp add: p)
  show "n_frames p = min n (effective_length p)" by (simp add: p)
  show "effective_idx p =
           (case randint 0 (effective_length p - n_frames p * every_nth_frame p - 5) r of
              Inr v \<Rightarrow> v | Inl e \<Rightarrow> py_int (avg_fps vr))" by (simp add: p)
qed

lemma frame_batch_locals_total:
  assumes "1 \<le> vr_len vr" and "target_fps \<noteq> 0"
  shows "\<exists>p. frame_batch_locals vr target_fps n r = Inr p"
proof -
  have "spec_every_nth (avg_fps vr / of_int target_fps + 1 / 100000) (vr_len vr) \<noteq> 0"
    using spec_every_nth_bounds(2)[OF assms(1), of "avg_fps vr / of_int target_fps + 1 / 100000"]
    by simp
  with assms(2) show ?thesis unfolding frame_batch_locals_unfold by simp
qed

lemma get_frame_batch_untiled:
  assumes n: "0 \<le> n" and p: "frame_batch_locals vr target_fps n r = Inr p"
  shows "int (length (arange_idxs p)) = n_frames p"
    and "get_frame_batch vr target_fps n r = Inr (arange_idxs p)"
proof -
  have "0 \<le> effective_length p"
    using frame_batch_locals_Inr(4,6)[OF p] by (simp add: pos_imp_zdiv_nonneg_iff)
  with n have "0 \<le> n_frames p" using frame_batch_locals_Inr(7)[OF p] by simp
  then show len: "int (length (arange_idxs p)) = n_frames p" by (simp add: arange_idxs_length)
  then show "get_frame_batch vr target_fps n r = Inr (arange_idxs p)"
    using p by (simp add: get_frame_batch_def needs_tiling_def)
qed

lemma randint_range: "randint a b r = Inr v \<Longrightarrow> a \<le> v \<and> v \<le> b"
proof -
  assume h: "randint a b r = Inr v"
  then have ab: "a \<le> b" and v: "v = a + int r mod (b - a + 1)"
    by (auto simp: randint_def split: if_splits)
  from ab have pos: "0 < b - a + 1" by simp
  have "0 \<le> int r mod (b - a + 1)" by (rule pos_mod_sign[OF pos])
  moreover have "int r mod (b - a + 1) < b - a + 1" by (rule pos_mod_bound[OF pos])
  ultimately show ?thesis using v by linarith
qed

lemma window_in_range:
  assumes n: "0 \<le> n" and p: "frame_batch_locals vr target_fps n r = Inr p"
    and rng: "0 \<le> effective_length p - n_frames p * every_nth_frame p - 5"
  shows "list_all (\<lambda>i. 0 \<le> i \<and> i < int (vr_len vr)) (arange_idxs p)"
  unfolding list_all_length
proof (intro allI impI)
  fix k assume k: "k < length (arange_idxs p)"
  note f = frame_batch_locals_Inr[OF p]
  define e where "e = every_nth_frame p"
  define m where "m = n_frames p"
  define l where "l = effective_length p"
  define x where "x = effective_idx p"
  have e1: "1 \<le> e" using f(4) by (simp add: e_def)
  obtain v where v: "randint 0 (l - m * e - 5) r = Inr v"
    using rng by (auto simp: randint_def l_def m_def e_def)
  then have xv: "x = v" using f(8) by (simp add: x_def l_def m_def e_def)
  from randint_range[OF v] xv have x0: "0 \<le> x" and xu: "x \<le> l - m * e - 5" by simp_all
  have km: "int k < m" using k by (simp add: arange_idxs_length m_def)
  then have m0: "0 \<le> m" by simp
  have "m \<le> m * e" using e1 m0 by (simp add: mult_le_cancel_left1)
  with xu km have "x + int k < l" by linarith
  then have "x + int k + 1 \<le> l" by simp
  then have "e * (x + int k + 1) \<le> e * l" using e1 by (simp add: mult_left_mono)
  moreover have "e * l \<le> int (vr_len vr)"
  proof -
    from e1 have "0 < e" by simp
    then have "0 \<le> int (vr_len vr) mod e" by (rule pos_mod_sign)
    moreover have "e * (int (vr_len vr) div e) + int (vr_len vr) mod e = int (vr_len vr)"
      by (rule mult_div_mod_eq)
    ultimately have "e * (int (vr_len vr) div e) \<le> int (vr_len vr)" by linarith
    moreover have "l = int (vr_len vr) div e" using f(6) by (simp add: e_def l_def)
    ultimately show ?thesis by simp
  qed
  ultimately have "e * (x + int k) + e \<le> int (vr_len vr)" by (simp add: algebra_simps)
  with e1 have up: "e * (x + int k) < int (vr_len vr)" by simp
  have lo: "0 \<le> e * (x + int k)" using e1 x0 by simp
  from lo up show "0 \<le> arange_idxs p ! k \<and> arange_idxs p ! k < int (vr_len vr)"
    using arange_idxs_nth[OF k] by (simp add: e_def x_def)
qed

text \<open>
  C4 (as amended). For a reader of at least one frame, a target rate other than 0 and a
  requested count \<open>n \<ge> 0\<close>, \<^verbatim>\<open>get_frame_batch\<close> computes the stride as
  \<^verbatim>\<open>round(native_fps/target_fps + 1e-5)\<close> clamped to \<open>[1, L]\<close>, the usable length
  as \<open>L div stride\<close>, shrinks \<open>n\<close> to the usable length when that is smaller, and returns
  that many indices, index \<open>k\<close> being \<open>stride * (start + k)\<close>; when the interval of the
  random start is not empty, all of them lie within \<open>[0, L)\<close>. The witness below is the
  instance of the claim: 30 fps to 10 fps, 300 frames, 24 requested, for every draw.
\<close>

theorem get_frame_batch_rate_selection:
  assumes L: "1 \<le> vr_len vr" and fps: "target_fps \<noteq> 0" and n: "0 \<le> n"
  shows "\<exists>p idxs. frame_batch_locals vr target_fps n r = Inr p
           \<and> get_frame_batch vr target_fps n r = Inr idxs
           \<and> every_nth_frame p
               = spec_every_nth (avg_fps vr / of_int target_fps + 1 / 100000) (vr_len vr)
           \<and> 1 \<le> every_nth_frame p \<and> every_nth_frame p \<le> int (vr_len vr)
           \<and> effective_length p = int (vr_len vr) div every_nth_frame p
           \<and> n_frames p = min n (effective_length p)
           \<and> int (length idxs) = n_frames p
           \<and> (\<forall>k<length idxs. idxs ! k = every_nth_frame p * (effective_idx p + int k))
           \<and> (0 \<le> effective_length p - n_frames p * every_nth_frame p - 5
                \<longrightarrow> list_all (\<lambda>i. 0 \<le> i \<and> i < int (vr_len vr)) idxs)"
proof -
  from frame_batch_locals_total[OF L fps] obtain p
    where p: "frame_batch_locals vr target_fps n r = Inr p" by blast
  note f = frame_batch_locals_Inr[OF p]
  note g = get_frame_batch_untiled[OF n p]
  have nth: "\<forall>k<length (arange_idxs p).
      arange_idxs p ! k = every_nth_frame p * (effective_idx p + int k)"
    by (simp add: arange_idxs_nth)
  have inr: "0 \<le> effective_length p - n_frames p * every_nth_frame p - 5
      \<longrightarrow> list_all (\<lambda>i. 0 \<le> i \<and> i < int (vr_len vr)) (arange_idxs p)"
    using window_in_range[OF n p] by blast
  show ?thesis
  proof (intro exI conjI)
    show "frame_batch_locals vr target_fps n r = Inr p" by (rule p)
    show "get_frame_batch vr target_fps n r = Inr (arange_idxs p)" by (rule g(2))
    show "every_nth_frame p
            = spec_every_nth (avg_fps vr / of_int target_fps + 1 / 100000) (vr_len vr)"
      by (rule f(3))
    show "1 \<le> every_nth_frame p" by (rule f(4))
    show "every_nth_frame p \<le> int (vr_len vr)" by (rule f(5))
    show "effective_length p = int (vr_len vr) div every_nth_frame p" by (rule f(6))
    show "n_frames p = min n (effective_length p)" by (rule f(7))
    show "int (length (arange_idxs p)) = n_frames p" by (rule g(1))
    show "\<forall>k<length (arange_idxs p).
        arange_idxs p ! k = every_nth_frame p * (effective_idx p + int k)" by (rule nth)
    show "0 \<le> effective_length p - n_frames p * every_nth_frame p - 5
        \<longrightarrow> list_all (\<lambda>i. 0 \<le> i \<and> i < int (vr_len vr)) (arange_idxs p)" by (rule inr)
  qed
qed

lemma every_nth_30_10: "spec_every_nth (30 / of_int 10 + 1 / 100000) 300 = 3"
  by code_simp

theorem get_frame_batch_rate_selection_witness:
  "\<forall>r. \<exists>p idxs. frame_batch_locals \<lparr>vr_len = 300, avg_fps = 30\<rparr> 10 24 r = Inr p
      \<and> get_frame_batch \<lparr>vr_len = 300, avg_fps = 30\<rparr> 10 24 r = Inr idxs
      \<and> every_nth_frame p = 3 \<and> effective_length p = 100 \<and> n_frames p = 24
      \<and> length idxs = 24
      \<and> (\<forall>k<length idxs. idxs ! k = 3 * (effective_idx p + int k))
      \<and> list_all (\<lambda>i. 0 \<le> i \<and> i < 300) idxs"
proof
  fix r
  have a: "1 \<le> vr_len \<lparr>vr_len = 300, avg_fps = 30\<rparr>" and b: "(10::int) \<noteq> 0"
    and c: "(0::int) \<le> 24" by simp_all
  from get_frame_batch_rate_selection[OF a b c, of r] obtain p idxs where
    p: "frame_batch_locals \<lparr>vr_len = 300, avg_fps = 30\<rparr> 10 24 r = Inr p"
    and g: "get_frame_batch \<lparr>vr_len = 300, avg_fps = 30\<rparr> 10 24 r = Inr idxs"
    and e: "every_nth_frame p = spec_every_nth (30 / of_int 10 + 1 / 100000) 300"
    and l: "effective_length p = 300 div every_nth_frame p"
    and m: "n_frames p = min 24 (effective_length p)"
    and len: "int (length idxs) = n_frames p"
    and nth: "\<forall>k<length idxs. idxs ! k = every_nth_frame p * (effective_idx p + int k)"
    and rng: "0 \<le> effective_length p - n_frames p * every_nth_frame p - 5
                \<longrightarrow> list_all (\<lambda>i. 0 \<le> i \<and> i < int 300) idxs"
    by auto
  from e have e3: "every_nth_frame p = 3" by (simp only: every_nth_30_10)
  with l have l100: "effective_length p = 100" by simp
  with m have m24: "n_frames p = 24" by simp
  from len m24 have len24: "length idxs = 24" by simp
  from rng e3 l100 m24 have "list_all (\<lambda>i. 0 \<le> i \<and> i < 300) idxs" by simp
  with p g e3 l100 m24 len24 nth
  show "\<exists>p idxs. frame_batch_locals \<lparr>vr_len = 300, avg_fps = 30\<rparr> 10 24 r = Inr p
      \<and> get_frame_batch \<lparr>vr_len = 300, avg_fps = 30\<rparr> 10 24 r = Inr idxs
      \<and> every_nth_frame p = 3 \<and> effective_length p = 100 \<and> n_frames p = 24
      \<and> length idxs = 24
      \<and> (\<forall>k<length idxs. idxs ! k = 3 * (effective_idx p + int k))
      \<and> list_all (\<lambda>i. 0 \<le> i \<and> i < 300) idxs"
    by (intro exI[of _ p] exI[of _ idxs]) simp
qed

text \<open>
  C4 as stated fails: the code rounds the ratio plus \<open>1e-5\<close>. For a 25 fps source and a
  target of 10 fps the stride of the code is 3, while \<^verbatim>\<open>round(25/10)\<close> is 2.
\<close>

theorem every_nth_round_counterexample:
  "frame_batch_locals \<lparr>vr_len = 300, avg_fps = 25\<rparr> 10 24 0
     = Inr \<lparr>every_nth_frame = 3, effective_length = 100, n_frames = 24, effective_idx = 0\<rparr>
   \<and> spec_every_nth (25 / of_int 10) 300 = 2"
  by code_simp

text \<open>
  C10. Whenever \<^verbatim>\<open>get_frame_batch\<close> reaches line 609 with a requested frame count that is
  not negative, the array of line 609 has exactly the (possibly shrunk)
  \<^verbatim>\<open>n_sample_frames\<close> elements: the test of line 611 is false, the tiling of line 612 is
  not executed, and the indices returned are those of line 609.
\<close>

theorem tiling_branch_unreachable:
  assumes "0 \<le> n" and "frame_batch_locals vr target_fps n r = Inr p"
  shows "int (length (arange_idxs p)) = n_frames p \<and> \<not> needs_tiling p
         \<and> get_frame_batch vr target_fps n r = Inr (arange_idxs p)"
  using get_frame_batch_untiled[OF assms] by (simp add: needs_tiling_def)

lemma locals_30_30: "frame_batch_locals \<lparr>vr_len = 20, avg_fps = 30\<rparr> 30 24 7
     = Inr \<lparr>every_nth_frame = 1, effective_length = 20, n_frames = 20, effective_idx = 30\<rparr>"
  by code_simp

theorem tiling_branch_unreachable_witness:
  "(0::int) \<le> 24
   \<and> frame_batch_locals \<lparr>vr_len = 20, avg_fps = 30\<rparr> 30 24 7
       = Inr \<lparr>every_nth_frame = 1, effective_length = 20, n_frames = 20, effective_idx = 30\<rparr>
   \<and> \<not> needs_tiling \<lparr>every_nth_frame = 1, effective_length = 20, n_frames = 20, effective_idx = 30\<rparr>
   \<and> get_frame_batch \<lparr>vr_len = 20, avg_fps = 30\<rparr> 30 24 7
       = Inr [30, 31, 32, 33, 34, 35, 36, 37, 38, 39, 40, 41, 42, 43, 44, 45, 46, 47, 48, 49]"
proof -
  have a: "(0::int) \<le> 24" by simp
  have v: "arange_idxs \<lparr>every_nth_frame = 1, effective_length = 20, n_frames = 20, effective_idx = 30\<rparr>
      = [30, 31, 32, 33, 34, 35, 36, 37, 38, 39, 40, 41, 42, 43, 44, 45, 46, 47, 48, 49]"
    by code_simp
  from tiling_branch_unreachable[OF a locals_30_30] v a locals_30_30 show ?thesis by simp
qed

section \<open>The folder variant: expected shapes and the retry loop\<close>

lemma get_video_shape_update:
  "get_video_shape (self\<lparr>width := w, height := h\<rparr>) = get_video_shape self"
  by (simp add: get_video_shape_def)

lemma get_audio_shape_update:
  "get_audio_shape (self\<lparr>width := w, height := h\<rparr>) = get_audio_shape self"
  by (simp add: get_audio_shape_def)

lemma fetch_attempt_update:
  "fetch_attempt (self\<lparr>width := w, height := h\<rparr>) process_video_wrapper t index
     = fetch_attempt self process_video_wrapper t index"
  unfolding fetch_attempt_def get_video_shape_update get_audio_shape_update by simp

text \<open>
  C9. The shapes \<^verbatim>\<open>__getitem__\<close> validates every item against do not depend on the
  configured width and height: the video shape is \<open>[n_sample_frames, 3, 256, 384]\<close>
  and the audio shape is \<open>[1, int(16000 * n_sample_frames / fps)]\<close> (for \<open>fps \<noteq> 0\<close>;
  the division raises otherwise), whatever \<^verbatim>\<open>width\<close> and \<^verbatim>\<open>height\<close> are set to, and so
  the outcome of the validated fetch is the same for the same decoded sizes.
\<close>

theorem expected_shapes_ignore_width_height:
  "get_video_shape (self\<lparr>width := w, height := h\<rparr>) = [n_sample_frames self, 3, 256, 384]
   \<and> get_audio_shape (self\<lparr>width := w, height := h\<rparr>) = get_audio_shape self
   \<and> (fps self \<noteq> 0 \<longrightarrow>
        get_audio_shape (self\<lparr>width := w, height := h\<rparr>)
          = Inr [1, py_int (of_int (16000 * n_sample_frames self) / of_int (fps self))])
   \<and> fetch_attempt (self\<lparr>width := w, height := h\<rparr>) process_video_wrapper t index
        = fetch_attempt self process_video_wrapper t index"
  unfolding fetch_attempt_update get_audio_shape_update get_video_shape_update
  by (simp add: get_video_shape_def get_audio_shape_def)

theorem expected_shapes_ignore_width_height_witness:
  "get_video_shape \<lparr>video_files = [''data/video/a.mp4''], width = 512, height = 320,
       n_sample_frames = 24, fps = 24, fallback_prompt = ''a video of <*>'', valid_videos = []\<rparr>
     = [24, 3, 256, 384]
   \<and> get_audio_shape \<lparr>video_files = [''data/video/a.mp4''], width = 512, height = 320,
       n_sample_frames = 24, fps = 24, fallback_prompt = ''a video of <*>'', valid_videos = []\<rparr>
     = Inr [1, 16000]"
  using expected_shapes_ignore_width_height[where
      self = "\<lparr>video_files = [''data/video/a.mp4''], width = 256, height = 256,
        n_sample_frames = 24, fps = 24, fallback_prompt = ''a video of <*>'', valid_videos = []\<rparr>"
      and w = 512 and h = 320 and process_video_wrapper = "\<lambda>vid_path t. Inl OSError"
      and t = 0 and index = 0]
  by (simp add: py_int_def get_audio_shape_def)

lemma getitem_loop_first_failure:
  assumes "valid_videos self = []"
    and "fetch_attempt self process_video_wrapper t index = Inl e"
  shows "getitem_loop self process_video_wrapper rnd t index = Some (Inl IndexError)"
  using assms by (subst getitem_loop.simps) (simp add: random_choice_def)

text \<open>
  C1 (as amended). In the folder variant, if the first fetch of \<^verbatim>\<open>__getitem__\<close> raises or
  fails the shape validation while the set of valid indices is empty, there is no retry:
  \<^verbatim>\<open>random.choice\<close> on the empty list raises \<^verbatim>\<open>IndexError\<close> inside the \<^verbatim>\<open>except\<close>
  clause, and that exception leaves \<^verbatim>\<open>__getitem__\<close> for the caller.
\<close>

theorem getitem_empty_valid_raises:
  assumes "valid_videos self = []"
    and "fetch_attempt self process_video_wrapper 0 index = Inl e"
  shows "getitem_loop self process_video_wrapper rnd 0 index = Some (Inl IndexError)
         \<and> getitem fs self process_video_wrapper rnd index = Some (Inl IndexError)"
  using getitem_loop_first_failure[OF assms] by (simp add: getitem_def)

theorem getitem_empty_valid_raises_witness:
  "valid_videos ds0 = []
   \<and> fetch_attempt ds0 (\<lambda>vid_path t. Inl OSError) 0 0 = Inl OSError
   \<and> getitem_loop ds0 (\<lambda>vid_path t. Inl OSError) (\<lambda>t. 0) 0 0 = Some (Inl IndexError)
   \<and> getitem Map.empty ds0 (\<lambda>vid_path t. Inl OSError) (\<lambda>t. 0) 0 = Some (Inl IndexError)"
proof -
  have a: "valid_videos ds0 = []" by (simp add: ds0_def)
  have b: "fetch_attempt ds0 (\<lambda>vid_path t. Inl OSError) 0 0 = Inl OSError"
    by (simp add: fetch_attempt_def ds0_def py_index_def)
  from getitem_empty_valid_raises[OF a b] a b show ?thesis by simp
qed

text \<open>
  C1 as stated fails: with one video file, no valid index so far and a fetch that
  decodes a 256 x 256 video (so that the shape validation fails), the loop returns, with
  \<^verbatim>\<open>IndexError\<close>; it does not hang.
\<close>

theorem getitem_hang_counterexample:
  "getitem_loop ds0 (\<lambda>vid_path t. Inr ([24, 3, 256, 256], [1, 16000])) (\<lambda>t. 0) 0 0
     = Some (Inl IndexError)
   \<and> getitem_loop ds0 (\<lambda>vid_path t. Inr ([24, 3, 256, 256], [1, 16000])) (\<lambda>t. 0) 0 0 \<noteq> None"
  by (subst getitem_loop.simps, subst getitem_loop.simps)
     (simp add: fetch_attempt_def ds0_def py_index_def get_video_shape_def random_choice_def)

section \<open>The manifest-driven variant\<close>

text \<open>
  C7. If the manifest path is missing or cannot be read, the manifest-driven dataset has
  length 0: the \<^verbatim>\<open>except\<close> branch of \<^verbatim>\<open>load_from_json\<close> returns nothing, \<^verbatim>\<open>__init__\<close>
  stores that \<^verbatim>\<open>None\<close> in \<^verbatim>\<open>train_data\<close>, and \<^verbatim>\<open>__len__\<close> answers 0 for it.
\<close>

theorem missing_manifest_len_zero:
  assumes "fs json_path = None \<or> (\<exists>e. fs json_path = Some (FileUnreadable e))"
  shows "train_data (video_json_dataset_init fs json_load json_path key) = None
         \<and> video_json_len (video_json_dataset_init fs json_load json_path key) = 0"
proof -
  from assms have "open_text fs json_path = None"
    by (auto simp: open_text_def)
  then have "load_from_json fs json_load \<lparr>vid_data_key = key, train_data = None\<rparr> json_path
      = (None, \<lparr>vid_data_key = key, train_data = Some []\<rparr>)"
    by (simp add: load_from_json_def)
  then show ?thesis by (simp add: video_json_dataset_init_def video_json_len_def)
qed

theorem missing_manifest_len_zero_witness:
  "Map.empty ''train.json'' = (None :: file_node option)
   \<and> video_json_len (video_json_dataset_init Map.empty (\<lambda>txt. None) ''train.json'' ''video_path'') = 0
   \<and> video_json_len (video_json_dataset_init [''train.json'' \<mapsto> FileUnreadable OSError]
        (\<lambda>txt. None) ''train.json'' ''video_path'') = 0"
  using missing_manifest_len_zero[of Map.empty "''train.json''" "\<lambda>txt. None" "''video_path''"]
    missing_manifest_len_zero[of "[''train.json'' \<mapsto> FileUnreadable OSError]" "''train.json''"
      "\<lambda>txt. None" "''video_path''"]
  by simp

text \<open>The same holds for any failure of the load (a manifest that does not parse or lacks
  a key); a manifest that loads gives its number of clips.\<close>

lemma failed_load_len_zero:
  "(do { txt \<leftarrow> open_text fs json_path; json_data \<leftarrow> json_load txt; build_json key json_data }) = None
   \<Longrightarrow> video_json_len (video_json_dataset_init fs json_load json_path key) = 0"
  by (simp add: video_json_dataset_init_def video_json_len_def load_from_json_def)

lemma loaded_manifest_len:
  "(do { txt \<leftarrow> open_text fs json_path; json_data \<leftarrow> json_load txt; build_json key json_data }) = Some items
   \<Longrightarrow> video_json_len (video_json_dataset_init fs json_load json_path key) = length items"
  by (simp add: video_json_dataset_init_def video_json_len_def load_from_json_def)

section \<open>Single-source chunking\<close>

lemma delete_for_frames_in_range:
  "list_all (\<lambda>f. f \<le> len_vr) cur \<Longrightarrow> delete_for_frames i len_vr cur frames = Inr frames"
  by (induction cur) auto

lemma delete_out_of_range_in_range:
  "list_all (list_all (\<lambda>f. f \<le> len_vr)) frames \<Longrightarrow> delete_out_of_range i len_vr frames = Inr frames"
proof (induction "length frames - i" arbitrary: i)
  case 0
  then show ?case by (subst delete_out_of_range.simps) simp
next
  case (Suc d)
  then have i: "i < length frames" by simp
  with Suc.prems have "list_all (\<lambda>f. f \<le> len_vr) (frames ! i)"
    by (simp add: list_all_length)
  then have "delete_for_frames i len_vr (frames ! i) frames = Inr frames"
    by (rule delete_for_frames_in_range)
  moreover have "delete_out_of_range (Suc i) len_vr frames = Inr frames"
    using Suc.hyps(1)[of "Suc i"] Suc.hyps(2) Suc.prems by simp
  ultimately show ?case using i by (subst delete_out_of_range.simps) simp
qed

lemma range_up_below: "0 < s \<Longrightarrow> x \<in> set (range_up a b s) \<Longrightarrow> x < b"
proof -
  assume s: "0 < s" and x: "x \<in> set (range_up a b s)"
  then obtain k where k: "k < length (range_up a b s)" and xk: "x = range_up a b s ! k"
    by (auto simp: in_set_conv_nth)
  from range_up_nth[OF s k] range_up_nth_length[OF s, of k a b] k xk show "x < b" by simp
qed

lemma chunk_iter_subset: "c \<in> set (chunk_iter sz xs) \<Longrightarrow> set c \<subseteq> set xs"
proof (induction sz xs rule: chunk_iter.induct)
  case (1 sz xs)
  show ?case
  proof (cases "sz = 0 \<or> xs = []")
    case True
    with 1(2) show ?thesis by (subst (asm) chunk_iter.simps) simp
  next
    case False
    with 1(2) have "c = take sz xs \<or> c \<in> set (chunk_iter sz (drop sz xs))"
      by (subst (asm) chunk_iter.simps) auto
    then show ?thesis
    proof
      assume "c = take sz xs"
      then show ?thesis by (simp add: set_take_subset)
    next
      assume "c \<in> set (chunk_iter sz (drop sz xs))"
      from 1(1)[OF False this] have "set c \<subseteq> set (drop sz xs)" .
      then show ?thesis using set_drop_subset[of sz xs] by blast
    qed
  qed
qed

lemma range_down_from_one:
  "s < 0 \<Longrightarrow> range_down 1 (int L) s = (if L = 0 then [1] else [])"
  by (subst range_down.simps, subst range_down.simps) auto

lemma chunk_iter_single: "chunk_iter sz [x] = (if sz = 0 then [] else [[x]])"
  by (subst chunk_iter.simps, subst chunk_iter.simps) auto

lemma chunk_iter_Nil: "chunk_iter sz [] = []"
  by (subst chunk_iter.simps) simp

lemma delete_out_of_range_Nil: "delete_out_of_range i len_vr [] = Inr []"
  by (subst delete_out_of_range.simps) simp

lemma delete_single_one: "delete_out_of_range 0 0 [[1]] = Inr []"
  by (subst delete_out_of_range.simps) (simp add: list_del_def delete_out_of_range_Nil)

lemma create_video_chunks_is_filter:
  assumes step: "frame_step \<noteq> 0" and n: "0 \<le> n"
  shows "\<exists>vr_range frames. py_range 1 (int L) frame_step = Inr vr_range
           \<and> chunk vr_range n = Inr frames
           \<and> create_video_chunks L frame_step n
                = Inr (filter (list_all (\<lambda>f. f \<le> int L)) frames)"
proof (cases "0 < frame_step")
  case True
  define vr_range where "vr_range = range_up 1 (int L) frame_step"
  define frames where "frames = chunk_iter (nat n) vr_range"
  have r: "py_range 1 (int L) frame_step = Inr vr_range"
    using True by (simp add: py_range_def vr_range_def)
  have c: "chunk vr_range n = Inr frames" using n by (simp add: chunk_def frames_def)
  have ok: "list_all (list_all (\<lambda>f. f \<le> int L)) frames"
    unfolding list_all_iff
  proof (intro ballI)
    fix c f assume "c \<in> set frames" and "f \<in> set c"
    then have "f \<in> set vr_range" using chunk_iter_subset[of c "nat n" vr_range]
      by (auto simp: frames_def)
    then have "f < int L" unfolding vr_range_def by (rule range_up_below[OF True])
    then show "f \<le> int L" by simp
  qed
  then have f: "filter (list_all (\<lambda>f. f \<le> int L)) frames = frames"
    by (simp add: list_all_iff)
  have "create_video_chunks L frame_step n = Inr frames"
    using r c delete_out_of_range_in_range[OF ok, of 0] by (simp add: create_video_chunks_def)
  with r c f show ?thesis by simp
next
  case False
  with step have neg: "frame_step < 0" by simp
  define vr_range where "vr_range = (if L = 0 then [1] else [] :: int list)"
  define frames where "frames = chunk_iter (nat n) vr_range"
  have r: "py_range 1 (int L) frame_step = Inr vr_range"
    using neg by (simp add: py_range_def vr_range_def range_down_from_one)
  have c: "chunk vr_range n = Inr frames" using n by (simp add: chunk_def frames_def)
  have "delete_out_of_range 0 (int L) frames = Inr (filter (list_all (\<lambda>f. f \<le> int L)) frames)"
    by (simp add: frames_def vr_range_def chunk_iter_single chunk_iter_Nil
        delete_out_of_range_Nil delete_single_one)
  then have "create_video_chunks L frame_step n
      = Inr (filter (list_all (\<lambda>f. f \<le> int L)) frames)"
    using r c by (simp add: create_video_chunks_def)
  with r c show ?thesis by blast
qed

lemma chunks_10_4: "create_video_chunks 10 1 4 = Inr [[1, 2, 3, 4], [5, 6, 7, 8], [9]]"
  by code_simp

text \<open>
  C6. For a source of length 10, chunk size 4 and frame step 1, \<^verbatim>\<open>create_video_chunks\<close>
  yields exactly the chunks (1,2,3,4), (5,6,7,8), (9,). For every source length, every
  frame step other than 0 and every chunk size that is not negative, the method returns
  the chunks of \<^verbatim>\<open>range(1, len(vr), frame_step)\<close> with every chunk that holds a frame index
  greater than the source length removed whole: the chunks kept are kept as they are,
  none is truncated. (A step of 0 and a negative size raise \<^verbatim>\<open>ValueError\<close>.)
\<close>

theorem create_video_chunks_drops_whole:
  assumes "frame_step \<noteq> 0" and "0 \<le> n"
  shows "create_video_chunks 10 1 4 = Inr [[1, 2, 3, 4], [5, 6, 7, 8], [9]]
         \<and> (\<exists>vr_range frames. py_range 1 (int L) frame_step = Inr vr_range
               \<and> chunk vr_range n = Inr frames
               \<and> create_video_chunks L frame_step n
                    = Inr (filter (list_all (\<lambda>f. f \<le> int L)) frames))"
  using chunks_10_4 create_video_chunks_is_filter[OF assms] by blast

theorem create_video_chunks_drops_whole_witness:
  "(-1::int) \<noteq> 0 \<and> (0::int) \<le> 4
   \<and> py_range 1 (int 0) (-1) = Inr [1]
   \<and> chunk [1::int] 4 = Inr [[1]]
   \<and> create_video_chunks 0 (-1) 4 = Inr []
   \<and> create_video_chunks 10 1 4 = Inr [[1, 2, 3, 4], [5, 6, 7, 8], [9]]"
proof -
  have a: "(-1::int) \<noteq> 0" and b: "(0::int) \<le> 4" by simp_all
  have r: "py_range 1 (int 0) (-1) = Inr [1]" by code_simp
  have c: "chunk [1::int] 4 = Inr [[1]]" by code_simp
  from create_video_chunks_drops_whole[OF a b, of 0] r c
  have "create_video_chunks 0 (-1) 4 = Inr []
        \<and> create_video_chunks 10 1 4 = Inr [[1, 2, 3, 4], [5, 6, 7, 8], [9]]"
    by auto
  with r c show ?thesis by simp
qed

section \<open>Caption resolution\<close>

lemma replace_cat_png: "str_replace ''img/cat.png'' ''.png'' ''.txt'' = ''img/cat.txt''"
  by code_simp

lemma replace_clip_mp4: "str_replace ''clip.mp4'' ''.mp4'' ''.txt'' = ''clip.txt''"
  by code_simp

lemma replace_a_mp4: "str_replace ''data/video/a.mp4'' ''.mp4'' ''.txt'' = ''data/video/a.txt''"
  by code_simp

text \<open>
  C5: the code at two inputs where it leaves the priority of the claim. With the image
  dataset's tuple of extensions, the explicit prompt \<^verbatim>\<open>'A'\<close> and a sidecar
  \<^verbatim>\<open>img/cat.txt\<close>, the sidecar's text is returned instead of the prompt: the test of
  line 51 is \<^verbatim>\<open>len(text_prompt) > 1\<close>. With the default \<^verbatim>\<open>ext_types=['.mp4']\<close>, no
  explicit prompt and a sidecar \<^verbatim>\<open>clip.txt\<close>, the fallback is returned instead of the
  sidecar's text: \<^verbatim>\<open>maybe_file.endswith(ext_types)\<close> raises \<^verbatim>\<open>TypeError\<close> for a list, and
  the bare \<^verbatim>\<open>except\<close> answers with the fallback.
\<close>

theorem get_text_prompt_priority_broken:
  "get_text_prompt [''img/cat.txt'' \<mapsto> FileText ''a cat''] ''A'' ''fallback'' ''img/cat.png''
       img_types True = (''a cat'', [])
   \<and> get_text_prompt [''clip.txt'' \<mapsto> FileText ''a dog''] [] ''fallback'' ''clip.mp4''
       (PyList [''.mp4'']) True = (''fallback'', [fallback_warning ''clip.mp4''])"
  by (simp add: get_text_prompt_def get_text_prompt_try_def img_types_def replace_cat_png
      replace_clip_mp4 ends_with_def path_exists_def read_caption_file_def read_text_file_def)

text \<open>With a tuple of extensions and a prompt of two characters or more, or none, the
  priority is the claimed one: prompt, then sidecar, then fallback.\<close>

lemma get_text_prompt_priority_where_it_holds:
  "get_text_prompt [''img/cat.txt'' \<mapsto> FileText ''a cat''] ''a dog'' ''fallback'' ''img/cat.png''
       img_types True = (''a dog'', [])
   \<and> get_text_prompt [''img/cat.txt'' \<mapsto> FileText ''a cat''] [] ''fallback'' ''img/cat.png''
       img_types True = (''a cat'', [])
   \<and> get_text_prompt Map.empty [] ''fallback'' ''img/cat.png'' img_types True = (''fallback'', [])"
  by code_simp

text \<open>
  C8: the code at an input where a caption read failure is not swallowed. In the folder
  variant the sidecar \<^verbatim>\<open>data/video/a.txt\<close> exists and cannot be read; the fetch succeeds,
  and the inline read of lines 667-669, which no \<^verbatim>\<open>try\<close> surrounds, raises out of
  \<^verbatim>\<open>__getitem__\<close>. \<^verbatim>\<open>get_text_prompt\<close> on the same file system returns the fallback and
  prints its warning.
\<close>

theorem folder_caption_read_failure_raises:
  "folder_text_prompt [''data/video/a.txt'' \<mapsto> FileUnreadable OSError] ''data/video/a.mp4''
       ''a video of <*>'' = Inl OSError
   \<and> getitem [''data/video/a.txt'' \<mapsto> FileUnreadable OSError] ds1
        (\<lambda>vid_path t. Inr ([24, 3, 256, 384], [1, 16000])) (\<lambda>t. 0) 0 = Some (Inl OSError)
   \<and> get_text_prompt [''data/video/a.txt'' \<mapsto> FileUnreadable OSError] [] ''a video of <*>''
        ''data/video/a.mp4'' (PyTuple [''.mp4'']) True
       = (''a video of <*>'', [fallback_warning ''data/video/a.mp4''])"
proof -
  have f: "folder_text_prompt [''data/video/a.txt'' \<mapsto> FileUnreadable OSError] ''data/video/a.mp4''
       ''a video of <*>'' = Inl OSError"
    by (simp add: folder_text_prompt_def replace_a_mp4 path_exists_def read_text_file_def)
  have a: "fetch_attempt ds1 (\<lambda>vid_path t. Inr ([24, 3, 256, 384], [1, 16000])) 0 0
      = Inr ([24, 3, 256, 384], [1, 16000])"
    by (simp add: fetch_attempt_def ds1_def py_index_def get_video_shape_def get_audio_shape_def
        py_int_def)
  have l: "getitem_loop ds1 (\<lambda>vid_path t. Inr ([24, 3, 256, 384], [1, 16000])) (\<lambda>t. 0) 0 0
      = Some (Inr (0, ds1\<lparr>valid_videos := [0]\<rparr>))"
    by (subst getitem_loop.simps) (simp add: a, simp add: ds1_def)
  have g: "getitem [''data/video/a.txt'' \<mapsto> FileUnreadable OSError] ds1
        (\<lambda>vid_path t. Inr ([24, 3, 256, 384], [1, 16000])) (\<lambda>t. 0) 0 = Some (Inl OSError)"
    using f by (simp add: getitem_def l) (simp add: ds1_def py_index_def)
  have t: "get_text_prompt [''data/video/a.txt'' \<mapsto> FileUnreadable OSError] [] ''a video of <*>''
        ''data/video/a.mp4'' (PyTuple [''.mp4'']) True
       = (''a video of <*>'', [fallback_warning ''data/video/a.mp4''])"
    by (simp add: get_text_prompt_def get_text_prompt_try_def replace_a_mp4
      ends_with_def path_exists_def read_caption_file_def read_text_file_def)
  from f g t show ?thesis by simp
qed

text \<open>\<^verbatim>\<open>get_text_prompt\<close> itself answers every exception of its body with the fallback
  and one printed line.\<close>

lemma get_text_prompt_swallows:
  "get_text_prompt_try fs text_prompt fallback file_path ext_types use_caption = Inl e
   \<Longrightarrow> get_text_prompt fs text_prompt fallback file_path ext_types use_caption
         = (fallback, [fallback_warning file_path])"
  by (simp add: get_text_prompt_def)

end
